theory Spec2Isabelle
  imports Complex_Main "HOL-Library.Sublist"
begin

section \<open>Subtitle merging (msub.py): a model of \<open>mergeSub\<close>\<close>

text \<open>
  The development follows the single source function \<open>mergeSub\<close> of \<open>msub.py\<close>.
  Python strings are modelled as \<^typ>\<open>string\<close> (characters with code points below 256),
  the stderr stream of the child process as a finite list of lines, and Python floats as
  exact rationals: rounding to binary64, overflow to infinity and underflow to zero are
  outside the model.  Every \<open>raise\<close> is a value of type \<open>exn\<close>.
\<close>

subsection \<open>Exceptions\<close>

text \<open>
  The exceptions that can arise in the body, and the two families Python separates:
  classes derived from \<open>Exception\<close>, which \<open>except Exception\<close> (line 125) catches, and
  the classes derived from \<open>BaseException\<close> only, which it does not.
\<close>

datatype exn =
    ValueError
  | IndexError
  | ZeroDivisionError
  | OSError
  | TypeError
  | UnicodeEncodeError
  | UserError string
  | KeyboardInterrupt
  | SystemExit
  | GeneratorExit

fun is_Exception :: "exn \<Rightarrow> bool" where
  "is_Exception KeyboardInterrupt = False"
| "is_Exception SystemExit = False"
| "is_Exception GeneratorExit = False"
| "is_Exception _ = True"

subsection \<open>String operations of the Python library\<close>

text \<open>\<open>needle in line\<close> is \<^term>\<open>sublist needle line\<close> (a contiguous occurrence).\<close>

text \<open>
  \<open>s.replace(old, new)\<close>: every non-overlapping occurrence of \<open>old\<close>, found from left to
  right, is replaced.  For an empty \<open>old\<close> Python puts \<open>new\<close> before every character and
  at the end.
\<close>

function str_replace :: "string \<Rightarrow> string \<Rightarrow> string \<Rightarrow> string" where
  "str_replace old new s =
     (if old = [] then (case s of [] \<Rightarrow> new | c # cs \<Rightarrow> new @ c # str_replace old new cs)
      else (case s of
              [] \<Rightarrow> []
            | c # cs \<Rightarrow>
                if prefix old s then new @ str_replace old new (drop (length old) s)
                else c # str_replace old new cs))"
  by pat_completeness auto
termination
  by (relation "measure (\<lambda>(old, new, s). length s)") auto

declare str_replace.simps [simp del]

subsection \<open>The command planner (lines 32--76)\<close>

text \<open>
  The \<open>if\<close>/\<open>elif\<close> chain on \<open>type\<close>.  The result is the (possibly rewritten) \<open>output\<close>
  together with \<open>command\<close>; \<open>None\<close> is the final \<open>else\<close> branch (``Invalid type'').
\<close>

definition plan :: "int \<Rightarrow> string \<Rightarrow> string \<Rightarrow> string \<Rightarrow> (string \<times> string list) option" where
  "plan type inputvideo sub output =
     (if type = 1 then
        (let output' = str_replace ''.mp4'' ''.mkv'' output
         in Some (output',
              [''ffmpeg'', ''-i'', inputvideo, ''-i'', sub,
               ''-map'', ''0'', ''-map'', ''1'', ''-c'', ''copy'', output']))
      else if type = 2 then
        Some (output,
          [''ffmpeg'', ''-i'', inputvideo, ''-i'', sub,
           ''-c:v'', ''copy'', ''-c:a'', ''copy'', ''-c:s'', ''mov_text'', output])
      else if type = 3 then
        Some (output,
          [''ffmpeg'', ''-i'', inputvideo,
           ''-vf'', ''subtitles='' @ sub,
           ''-c:v'', ''libx264'', ''-preset'', ''ultrafast'',
           ''-c:a'', ''copy'', output])
      else if type = 4 then
        Some (output,
          [''ffmpeg'', ''-hwaccel'', ''cuda'', ''-i'', inputvideo,
           ''-vf'', ''subtitles='' @ sub,
           ''-c:v'', ''h264_nvenc'', ''-preset'', ''fast'', ''-b:v'', ''2M'',
           ''-c:a'', ''copy'', output])
      else if type = 5 then
        Some (output,
          [''ffmpeg'', ''-i'', inputvideo,
           ''-vf'', ''scale=1280:-2,subtitles='' @ sub,
           ''-c:v'', ''libx264'', ''-preset'', ''ultrafast'',
           ''-c:a'', ''copy'', output])
      else None)"

subsection \<open>Regular expressions (\<open>re.search\<close>)\<close>

text \<open>
  The three patterns of the source use literal characters, \<open>.\<close>, a greedy \<open>+\<close> over a
  character class and capturing groups.  \<open>re_match\<close> is the backtracking matcher of
  Python's \<open>re\<close> on such patterns: \<open>Plus\<close> takes as many characters as it can and gives
  them back one at a time when the rest of the pattern fails.  The result lists the
  captured groups in order.
\<close>

datatype tok =
    Chr char
  | Dot
  | Plus "char \<Rightarrow> bool"
  | Star "char \<Rightarrow> bool"
  | Open_group
  | Close_group

definition add_char :: "char \<Rightarrow> string option \<Rightarrow> string option" where
  "add_char x cur = (case cur of None \<Rightarrow> None | Some g \<Rightarrow> Some (g @ [x]))"

function re_match :: "tok list \<Rightarrow> string \<Rightarrow> string list \<Rightarrow> string option \<Rightarrow> string list option" where
  "re_match [] s gs cur = Some (rev gs)"
| "re_match (Open_group # ts) s gs cur = re_match ts s gs (Some [])"
| "re_match (Close_group # ts) s gs cur =
     (case cur of None \<Rightarrow> None | Some g \<Rightarrow> re_match ts s (g # gs) None)"
| "re_match (Chr c # ts) s gs cur =
     (case s of
        [] \<Rightarrow> None
      | x # xs \<Rightarrow> if x = c then re_match ts xs gs (add_char x cur) else None)"
| "re_match (Dot # ts) s gs cur =
     (case s of
        [] \<Rightarrow> None
      | x # xs \<Rightarrow> if x \<noteq> CHR 0x0A then re_match ts xs gs (add_char x cur) else None)"
| "re_match (Plus cls # ts) s gs cur =
     (case s of
        [] \<Rightarrow> None
      | x # xs \<Rightarrow> if cls x then re_match (Star cls # ts) xs gs (add_char x cur) else None)"
| "re_match (Star cls # ts) s gs cur =
     (case s of
        [] \<Rightarrow> re_match ts s gs cur
      | x # xs \<Rightarrow>
          if cls x then
            (case re_match (Star cls # ts) xs gs (add_char x cur) of
               Some r \<Rightarrow> Some r
             | None \<Rightarrow> re_match ts s gs cur)
          else re_match ts s gs cur)"
  by pat_completeness auto
termination
  by (relation "measure (\<lambda>(ts, s, gs, cur). length ts + length s)") auto

text \<open>\<open>re.search\<close>: the match at the leftmost position where the pattern matches.\<close>

fun re_search :: "tok list \<Rightarrow> string \<Rightarrow> string list option" where
  "re_search p [] = re_match p [] [] None"
| "re_search p (c # cs) =
     (case re_match p (c # cs) [] None of
        Some gs \<Rightarrow> Some gs
      | None \<Rightarrow> re_search p cs)"

definition literal :: "string \<Rightarrow> tok list" where
  "literal s = map Chr s"

definition group :: "tok list \<Rightarrow> tok list" where
  "group p = Open_group # p @ [Close_group]"

text \<open>\<open>\d\<close>: on code points below 256 the decimal digits are \<open>0\<close> to \<open>9\<close>.\<close>

definition is_digit :: "char \<Rightarrow> bool" where
  "is_digit c = (48 \<le> (of_char c :: nat) \<and> (of_char c :: nat) \<le> 57)"

definition digit_or_dot :: "char \<Rightarrow> bool" where
  "digit_or_dot c = (is_digit c \<or> c = CHR ''.'')"

text \<open>Line 87: \<open>Duration: (\d+):(\d+):(\d+.\d+)\<close>, with its unescaped dot.\<close>

definition duration_re :: "tok list" where
  "duration_re =
     literal ''Duration: '' @ group [Plus is_digit] @ [Chr CHR '':''] @ group [Plus is_digit]
       @ [Chr CHR '':''] @ group [Plus is_digit, Dot, Plus is_digit]"

text \<open>Line 94: \<open>time=(\d+):(\d+):(\d+\.\d+)\<close>.\<close>

definition time_re :: "tok list" where
  "time_re =
     literal ''time='' @ group [Plus is_digit] @ [Chr CHR '':''] @ group [Plus is_digit]
       @ [Chr CHR '':''] @ group [Plus is_digit, Chr CHR ''.'', Plus is_digit]"

text \<open>Line 101: \<open>speed=([\d.]+)x\<close>.\<close>

definition speed_re :: "tok list" where
  "speed_re = literal ''speed='' @ group [Plus digit_or_dot] @ [Chr CHR ''x'']"

subsection \<open>\<open>float\<close>, arithmetic and formatting\<close>

text \<open>
  \<open>float(s)\<close> on the strings the patterns capture.  Python's grammar is
  \<open>digitpart ::= digit (["_"] digit)*\<close>,
  \<open>number ::= [digitpart] "." digitpart | digitpart ["."]\<close> and
  \<open>floatnumber ::= number [("e" | "E") ["+" | "-"] digitpart]\<close>; any other string raises
  \<open>ValueError\<close>.  A leading sign, surrounding white space and the words \<open>inf\<close> and
  \<open>nan\<close> are left out: every captured group starts with a digit or a dot and ends with
  one.
\<close>

definition digit_val :: "char \<Rightarrow> nat" where
  "digit_val c = of_char c - 48"

definition nat_of_digits :: "string \<Rightarrow> nat" where
  "nat_of_digits ds = foldl (\<lambda>n c. 10 * n + digit_val c) 0 ds"

fun digit_tail :: "string \<Rightarrow> string \<times> string" where
  "digit_tail [] = ([], [])"
| "digit_tail [c] = (if is_digit c then ([c], []) else ([], [c]))"
| "digit_tail (c # d # cs) =
     (if is_digit c then (case digit_tail (d # cs) of (ds, r) \<Rightarrow> (c # ds, r))
      else if c = CHR ''_'' \<and> is_digit d then (case digit_tail cs of (ds, r) \<Rightarrow> (d # ds, r))
      else ([], c # d # cs))"

definition digitpart :: "string \<Rightarrow> (string \<times> string) option" where
  "digitpart s =
     (case s of
        [] \<Rightarrow> None
      | c # cs \<Rightarrow>
          if is_digit c then (case digit_tail cs of (ds, r) \<Rightarrow> Some (c # ds, r)) else None)"

definition number :: "string \<Rightarrow> (string \<times> string \<times> string) option" where
  "number s =
     (case digitpart s of
        Some (ip, r) \<Rightarrow>
          (case r of
             [] \<Rightarrow> Some (ip, [], [])
           | c # r' \<Rightarrow>
               if c = CHR ''.'' then
                 (case digitpart r' of
                    Some (fp, r'') \<Rightarrow> Some (ip, fp, r'')
                  | None \<Rightarrow> Some (ip, [], r'))
               else Some (ip, [], r))
      | None \<Rightarrow>
          (case s of
             [] \<Rightarrow> None
           | c # r' \<Rightarrow>
               if c = CHR ''.'' then
                 (case digitpart r' of
                    Some (fp, r'') \<Rightarrow> Some ([], fp, r'')
                  | None \<Rightarrow> None)
               else None))"

definition exponent_digits :: "string \<Rightarrow> nat option" where
  "exponent_digits s =
     (case digitpart s of
        None \<Rightarrow> None
      | Some (ds, r) \<Rightarrow> if r = [] then Some (nat_of_digits ds) else None)"

definition exponent :: "string \<Rightarrow> int option" where
  "exponent s =
     (case s of
        [] \<Rightarrow> Some 0
      | c # cs \<Rightarrow>
          if c = CHR ''e'' \<or> c = CHR ''E'' then
            (case cs of
               [] \<Rightarrow> None
             | sg # ds \<Rightarrow>
                 if sg = CHR ''-'' then map_option (\<lambda>n. - int n) (exponent_digits ds)
                 else if sg = CHR ''+'' then map_option int (exponent_digits ds)
                 else map_option int (exponent_digits cs))
          else None)"

definition scale :: "string \<Rightarrow> string \<Rightarrow> int \<Rightarrow> rat" where
  "scale ip fp e =
     (of_nat (nat_of_digits (ip @ fp)) / 10 ^ length fp)
       * (if 0 \<le> e then 10 ^ nat e else 1 / 10 ^ nat (- e))"

definition py_float :: "string \<Rightarrow> exn + rat" where
  "py_float s =
     (case number s of
        None \<Rightarrow> Inl ValueError
      | Some (ip, fp, r) \<Rightarrow>
          (case exponent r of
             None \<Rightarrow> Inl ValueError
           | Some e \<Rightarrow> Inr (scale ip fp e)))"

text \<open>\<open>a / b\<close> on floats raises \<open>ZeroDivisionError\<close> for a zero divisor.\<close>

definition py_truediv :: "rat \<Rightarrow> rat \<Rightarrow> exn + rat" where
  "py_truediv a b = (if b = 0 then Inl ZeroDivisionError else Inr (a / b))"

text \<open>\<open>a // b\<close> and \<open>a % b\<close>; the source uses them with the literal divisor 60 only.\<close>

definition py_floordiv :: "rat \<Rightarrow> rat \<Rightarrow> rat" where
  "py_floordiv a b = of_int \<lfloor>a / b\<rfloor>"

definition py_mod :: "rat \<Rightarrow> rat \<Rightarrow> rat" where
  "py_mod a b = a - b * of_int \<lfloor>a / b\<rfloor>"

text \<open>\<open>int(x)\<close> truncates towards zero.\<close>

definition py_int :: "rat \<Rightarrow> int" where
  "py_int x = (if 0 \<le> x then \<lfloor>x\<rfloor> else \<lceil>x\<rceil>)"

text \<open>\<open>round(x, 2)\<close>: to the nearest multiple of 1/100, a tie going to the even one.\<close>

definition py_round2 :: "rat \<Rightarrow> rat" where
  "py_round2 x =
     (let y = x * 100; f = \<lfloor>y\<rfloor>; r = y - of_int f
      in of_int (if r < 1 / 2 then f
                 else if 1 / 2 < r then f + 1
                 else if even f then f else f + 1) / 100)"

text \<open>\<open>str(n)\<close> of an integer, as an f-string renders it.\<close>

function str_nat :: "nat \<Rightarrow> string" where
  "str_nat n =
     (if n < 10 then [''0123456789'' ! n]
      else str_nat (n div 10) @ [''0123456789'' ! (n mod 10)])"
  by pat_completeness auto
termination
  by (relation "measure (\<lambda>n. n)") auto

declare str_nat.simps [simp del]

definition str_int :: "int \<Rightarrow> string" where
  "str_int i = (if i < 0 then CHR ''-'' # str_nat (nat (- i)) else str_nat (nat i))"

subsection \<open>The progress monitor (lines 83--115)\<close>

text \<open>The keyword arguments of one call of \<open>progress_callback\<close>.\<close>

record sample =
  percentage :: rat
  speed :: rat
  eta :: string

text \<open>
  \<open>hours, minutes, seconds = map(float, match.groups())\<close> followed by
  \<open>hours * 3600 + minutes * 60 + seconds\<close> (lines 89--90 and 96--97).  Unpacking anything
  but three values raises \<open>ValueError\<close>, as a failing \<open>float\<close> does.
\<close>

definition hms :: "string list \<Rightarrow> exn + rat" where
  "hms gs =
     (case gs of
        [h, m, s] \<Rightarrow>
          (case py_float h of
             Inl e \<Rightarrow> Inl e
           | Inr hours \<Rightarrow>
               (case py_float m of
                  Inl e \<Rightarrow> Inl e
                | Inr minutes \<Rightarrow>
                    (case py_float s of
                       Inl e \<Rightarrow> Inl e
                     | Inr seconds \<Rightarrow> Inr (hours * 3600 + minutes * 60 + seconds))))
      | _ \<Rightarrow> Inl ValueError)"

text \<open>
  Lines 86--90, ``Extract duration of the video'': the new value of \<open>duration\<close>, or the
  exception raised while computing it.
\<close>

definition extract_duration :: "rat option \<Rightarrow> string \<Rightarrow> exn + rat option" where
  "extract_duration duration line =
     (if sublist ''Duration'' line \<and> duration = None then
        (case re_search duration_re line of
           None \<Rightarrow> Inr duration
         | Some gs \<Rightarrow> (case hms gs of Inl e \<Rightarrow> Inl e | Inr d \<Rightarrow> Inr (Some d)))
      else Inr duration)"

text \<open>\<open>speed_match.group(1)\<close>: a missing group raises \<open>IndexError\<close>.\<close>

definition group1 :: "string list \<Rightarrow> exn + string" where
  "group1 gs = (case gs of [] \<Rightarrow> Inl IndexError | g # _ \<Rightarrow> Inr g)"

text \<open>
  Lines 93--108 and the arguments built on lines 112--114, ``Extract progress
  information'': the sample this line gives rise to, if any.  \<open>if match and duration\<close>
  is false for \<open>None\<close> and for \<open>0.0\<close>.  \<open>eta\<close> is the integer \<open>0\<close> when the speed is not
  positive.
\<close>

definition extract_progress :: "rat option \<Rightarrow> string \<Rightarrow> exn + sample option" where
  "extract_progress duration line =
     (if sublist ''time='' line then
        (case re_search time_re line of
           None \<Rightarrow> Inr None
         | Some gs \<Rightarrow>
             (case duration of
                None \<Rightarrow> Inr None
              | Some d \<Rightarrow>
                  if d = 0 then Inr None
                  else
                    (case hms gs of
                       Inl e \<Rightarrow> Inl e
                     | Inr elapsed \<Rightarrow>
                         (case py_truediv elapsed d of
                            Inl e \<Rightarrow> Inl e
                          | Inr q \<Rightarrow>
                              (case (case re_search speed_re line of
                                       None \<Rightarrow> Inr 1
                                     | Some sg \<Rightarrow>
                                         (case group1 sg of
                                            Inl e \<Rightarrow> Inl e
                                          | Inr g \<Rightarrow> py_float g)) of
                                 Inl e \<Rightarrow> Inl e
                               | Inr sp \<Rightarrow>
                                   (case (if 0 < sp then py_truediv (d - elapsed) sp
                                          else Inr 0) of
                                      Inl e \<Rightarrow> Inl e
                                    | Inr et \<Rightarrow>
                                        Inr (Some
                                          \<lparr>percentage = py_round2 (q * 100),
                                           speed = py_round2 sp,
                                           eta = str_int (py_int (py_floordiv et 60))
                                                   @ ''m ''
                                                   @ str_int (py_int (py_mod et 60))
                                                   @ ''s''\<rparr>)))))))
      else Inr None)"

text \<open>
  The caller's \<open>progress_callback\<close>.  It is given the samples it has received so far and
  the new one; \<open>Some e\<close> means that the call raises \<open>e\<close>.  \<open>None\<close> as the callback
  argument of \<open>mergeSub\<close> is Python's \<open>None\<close>, for which line 110 skips the call.
\<close>

type_synonym observer = "sample list \<Rightarrow> sample \<Rightarrow> exn option"

record monitor_state =
  duration :: "rat option"
  calls :: "sample list"

text \<open>
  One iteration of \<open>for line in process.stderr\<close>: the exception that ends the loop, if
  any, and the state reached.  \<open>calls\<close> lists the calls made to the callback, the one
  that raised included.
\<close>

definition step :: "observer option \<Rightarrow> monitor_state \<Rightarrow> string \<Rightarrow> exn option \<times> monitor_state" where
  "step progress_callback st line =
     (case extract_duration (duration st) line of
        Inl e \<Rightarrow> (Some e, st)
      | Inr d \<Rightarrow>
          (case extract_progress d line of
             Inl e \<Rightarrow> (Some e, st\<lparr>duration := d\<rparr>)
           | Inr None \<Rightarrow> (None, st\<lparr>duration := d\<rparr>)
           | Inr (Some smp) \<Rightarrow>
               (case progress_callback of
                  None \<Rightarrow> (None, st\<lparr>duration := d\<rparr>)
                | Some f \<Rightarrow>
                    (f (calls st) smp, \<lparr>duration = d, calls = calls st @ [smp]\<rparr>))))"

fun monitor :: "observer option \<Rightarrow> string list \<Rightarrow> monitor_state \<Rightarrow> exn option \<times> monitor_state" where
  "monitor progress_callback [] st = (None, st)"
| "monitor progress_callback (line # lines) st =
     (case step progress_callback st line of
        (Some e, st') \<Rightarrow> (Some e, st')
      | (None, st') \<Rightarrow> monitor progress_callback lines st')"

definition initial :: monitor_state where
  "initial = \<lparr>duration = None, calls = []\<rparr>"

subsection \<open>\<open>mergeSub\<close>\<close>

text \<open>
  What the function reads from its environment: \<open>os.path.exists\<close>, and what
  \<open>subprocess.Popen\<close> does with a command, which is either to raise or to start a process
  that writes the given lines to stderr and exits with the given code.
\<close>

record env =
  path_exists :: "string \<Rightarrow> bool"
  popen :: "string list \<Rightarrow> exn + (string list \<times> int)"

datatype message =
    Video_not_found string
  | Subtitle_not_found string
  | Invalid_type
  | Merged_successfully string
  | FFmpeg_failed
  | Unexpected_error exn

text \<open>
  What one call does: the value returned (\<open>Inr\<close>) or the exception that leaves the
  function (\<open>Inl\<close>), the commands handed to \<open>Popen\<close>, the calls made to the callback and
  the messages printed.
\<close>

record run =
  returned :: "exn + bool"
  launched :: "string list list"
  observed :: "sample list"
  printed :: "message list"

text \<open>
  Lines 125--127: \<open>except Exception as e\<close>.  In \<open>handle\<close> and \<open>mergeSub\<close> every
  \<open>print\<close> succeeds: they describe the runs in which standard output takes every
  message.  \<open>mergeSub_io\<close> below is the function for any standard output.
\<close>

definition handle :: "exn \<Rightarrow> string list list \<Rightarrow> sample list \<Rightarrow> run" where
  "handle e cmds smps =
     (if is_Exception e then
        \<lparr>returned = Inr False, launched = cmds, observed = smps,
         printed = [Unexpected_error e]\<rparr>
      else \<lparr>returned = Inl e, launched = cmds, observed = smps, printed = []\<rparr>)"

definition mergeSub :: "env \<Rightarrow> int \<Rightarrow> string \<Rightarrow> string \<Rightarrow> string \<Rightarrow> observer option \<Rightarrow> run" where
  "mergeSub env type inputvideo sub output progress_callback =
     (if \<not> path_exists env inputvideo then
        \<lparr>returned = Inr False, launched = [], observed = [],
         printed = [Video_not_found inputvideo]\<rparr>
      else if \<not> path_exists env sub then
        \<lparr>returned = Inr False, launched = [], observed = [],
         printed = [Subtitle_not_found sub]\<rparr>
      else
        (case plan type inputvideo sub output of
           None \<Rightarrow>
             \<lparr>returned = Inr False, launched = [], observed = [], printed = [Invalid_type]\<rparr>
         | Some (output', command) \<Rightarrow>
             (case popen env command of
                Inl e \<Rightarrow> handle e [command] []
              | Inr (stderr, returncode) \<Rightarrow>
                  (case monitor progress_callback stderr initial of
                     (Some e, st) \<Rightarrow> handle e [command] (calls st)
                   | (None, st) \<Rightarrow>
                       if returncode = 0 then
                         \<lparr>returned = Inr True, launched = [command], observed = calls st,
                          printed = [Merged_successfully output']\<rparr>
                       else
                         \<lparr>returned = Inr False, launched = [command], observed = calls st,
                          printed = [FFmpeg_failed]\<rparr>))))"

subsection \<open>\<open>mergeSub\<close> with a standard output that can fail\<close>

text \<open>
  \<open>print\<close> writes to standard output and raises when that fails: \<open>UnicodeEncodeError\<close>
  when the encoding of the stream has no code for a character of the message (the
  messages of lines 119, 122 and 126 begin with an emoji), \<open>OSError\<close> when the stream is
  closed.  A standard output is what it does with each message: \<open>Some e\<close> means that
  the \<open>print\<close> raises \<open>e\<close>.  The prints of lines 25 and 28 are outside the \<open>try\<close>,
  those of lines 75, 119 and 122 inside it, and that of line 126 inside the handler,
  where nothing catches what it raises.  \<open>printed\<close> lists the messages written.
\<close>

type_synonym stdout = "message \<Rightarrow> exn option"

definition handle_io :: "stdout \<Rightarrow> exn \<Rightarrow> string list list \<Rightarrow> sample list \<Rightarrow> run" where
  "handle_io stdout e cmds smps =
     (if is_Exception e then
        (case stdout (Unexpected_error e) of
           Some e' \<Rightarrow> \<lparr>returned = Inl e', launched = cmds, observed = smps, printed = []\<rparr>
         | None \<Rightarrow>
             \<lparr>returned = Inr False, launched = cmds, observed = smps,
              printed = [Unexpected_error e]\<rparr>)
      else \<lparr>returned = Inl e, launched = cmds, observed = smps, printed = []\<rparr>)"

definition mergeSub_io ::
  "stdout \<Rightarrow> env \<Rightarrow> int \<Rightarrow> string \<Rightarrow> string \<Rightarrow> string \<Rightarrow> observer option \<Rightarrow> run" where
  "mergeSub_io stdout env type inputvideo sub output progress_callback =
     (if \<not> path_exists env inputvideo then
        (case stdout (Video_not_found inputvideo) of
           Some e \<Rightarrow> \<lparr>returned = Inl e, launched = [], observed = [], printed = []\<rparr>
         | None \<Rightarrow>
             \<lparr>returned = Inr False, launched = [], observed = [],
              printed = [Video_not_found inputvideo]\<rparr>)
      else if \<not> path_exists env sub then
        (case stdout (Subtitle_not_found sub) of
           Some e \<Rightarrow> \<lparr>returned = Inl e, launched = [], observed = [], printed = []\<rparr>
         | None \<Rightarrow>
             \<lparr>returned = Inr False, launched = [], observed = [],
              printed = [Subtitle_not_found sub]\<rparr>)
      else
        (case plan type inputvideo sub output of
           None \<Rightarrow>
             (case stdout Invalid_type of
                Some e \<Rightarrow> handle_io stdout e [] []
              | None \<Rightarrow>
                  \<lparr>returned = Inr False, launched = [], observed = [],
                   printed = [Invalid_type]\<rparr>)
         | Some (output', command) \<Rightarrow>
             (case popen env command of
                Inl e \<Rightarrow> handle_io stdout e [command] []
              | Inr (stderr, returncode) \<Rightarrow>
                  (case monitor progress_callback stderr initial of
                     (Some e, st) \<Rightarrow> handle_io stdout e [command] (calls st)
                   | (None, st) \<Rightarrow>
                       if returncode = 0 then
                         (case stdout (Merged_successfully output') of
                            Some e \<Rightarrow> handle_io stdout e [command] (calls st)
                          | None \<Rightarrow>
                              \<lparr>returned = Inr True, launched = [command],
                               observed = calls st,
                               printed = [Merged_successfully output']\<rparr>)
                       else
                         (case stdout FFmpeg_failed of
                            Some e \<Rightarrow> handle_io stdout e [command] (calls st)
                          | None \<Rightarrow>
                              \<lparr>returned = Inr False, launched = [command],
                               observed = calls st, printed = [FFmpeg_failed]\<rparr>)))))"

subsection \<open>Reference notions used in the statements\<close>

text \<open>
  The rewrite of the output path as section 4.1 of the specification words it, ``a
  single suffix substitution'': the trailing extension is replaced and nothing else.  It
  is compared below with what line 34 computes.
\<close>

definition suffix_substitution :: "string \<Rightarrow> string \<Rightarrow> string \<Rightarrow> string" where
  "suffix_substitution old new p =
     (if suffix old p then take (length p - length old) p @ new else p)"

text \<open>
  \<open>sep.join(us)\<close>: a path is the join by \<open>.mp4\<close> of the pieces around the occurrences
  of \<open>.mp4\<close> in it.
\<close>

fun str_join :: "string \<Rightarrow> string list \<Rightarrow> string" where
  "str_join sep [] = []"
| "str_join sep [u] = u"
| "str_join sep (u # v # vs) = u @ sep @ str_join sep (v # vs)"

text \<open>
  The samples that a list of lines gives rise to when the total duration is fixed to \<open>d\<close>
  throughout.
\<close>

definition samples_of :: "rat \<Rightarrow> string list \<Rightarrow> sample list" where
  "samples_of d lines =
     concat (map (\<lambda>line. case extract_progress (Some d) line of
                             Inr (Some smp) \<Rightarrow> [smp]
                           | _ \<Rightarrow> []) lines)"

text \<open>
  Environments and callbacks for the concrete runs below: one where every path exists and
  the process writes the given lines and exits with the given code, one where no path
  exists, a callback that returns, one that raises an exception derived from
  \<open>Exception\<close>, and one during which \<open>KeyboardInterrupt\<close> is raised.
\<close>

definition stub_env :: "string list \<Rightarrow> int \<Rightarrow> env" where
  "stub_env lines code =
     \<lparr>path_exists = (\<lambda>p. True), popen = (\<lambda>command. Inr (lines, code))\<rparr>"


definition quiet :: observer where
  "quiet seen smp = None"

definition failing :: observer where
  "failing seen smp = Some (UserError ''callback failed'')"

definition interrupting :: observer where
  "interrupting seen smp = Some KeyboardInterrupt"

text \<open>
  A standard output that takes every message, and one whose encoding is ASCII: it takes
  the messages of lines 25, 28 and 75 (for paths in ASCII) and raises on the three that
  begin with an emoji.
\<close>

definition accepting :: stdout where
  "accepting m = None"

fun ascii_only :: stdout where
  "ascii_only (Merged_successfully output') = Some UnicodeEncodeError"
| "ascii_only FFmpeg_failed = Some UnicodeEncodeError"
| "ascii_only (Unexpected_error e) = Some UnicodeEncodeError"
| "ascii_only m = None"

section \<open>Properties\<close>

subsection \<open>\<open>str.replace\<close> on the extension\<close>

lemma str_replace_Nil: "old \<noteq> [] \<Longrightarrow> str_replace old new [] = []"
  by (simp add: str_replace.simps)

lemma str_replace_hit:
  assumes "old \<noteq> []"
  shows "str_replace old new (old @ r) = new @ str_replace old new r"
proof -
  obtain c cs where e: "old @ r = c # cs"
    using assms by (cases old) auto
  have "str_replace old new (c # cs) =
          (if prefix old (c # cs) then new @ str_replace old new (drop (length old) (c # cs))
           else c # str_replace old new cs)"
    by (subst str_replace.simps) (simp add: assms)
  moreover have "prefix old (c # cs)" and "drop (length old) (c # cs) = r"
    by (simp_all flip: e)
  ultimately show ?thesis
    by (simp flip: e)
qed

lemma str_replace_miss:
  "old \<noteq> [] \<Longrightarrow> \<not> prefix old (c # cs) \<Longrightarrow>
     str_replace old new (c # cs) = c # str_replace old new cs"
  by (simp add: str_replace.simps [of old new "c # cs"])

lemma mp4_self_overlap:
  assumes "suffix ''.mp4'' (''.mp4'' @ r)" and "r \<noteq> []"
  shows "suffix ''.mp4'' r"
proof -
  from assms(1) consider "suffix ''.mp4'' r"
    | xs' where "''.mp4'' = xs' @ r" and "suffix xs' ''.mp4''"
    unfolding suffix_append by blast
  then show ?thesis
  proof cases
    case 1
    then show ?thesis .
  next
    case 2
    from 2(1) assms(2) have "xs' = [] \<or> xs' = ''.'' \<or> xs' = ''.m'' \<or> xs' = ''.mp''"
      by (auto simp: Cons_eq_append_conv)
    with 2 show ?thesis
      by (auto simp: suffix_to_prefix)
  qed
qed

lemma replace_mp4_suffix:
  "suffix ''.mp4'' s \<Longrightarrow> suffix ''.mkv'' (str_replace ''.mp4'' ''.mkv'' s)"
proof (induction s rule: length_induct)
  case (1 s)
  from "1.prems" obtain c cs where s: "s = c # cs"
    by (cases s) auto
  show ?case
  proof (cases "prefix ''.mp4'' s")
    case True
    then obtain r where r: "s = ''.mp4'' @ r"
      by (auto simp: prefix_def)
    have eq: "str_replace ''.mp4'' ''.mkv'' s = ''.mkv'' @ str_replace ''.mp4'' ''.mkv'' r"
      unfolding r by (rule str_replace_hit) simp
    show ?thesis
    proof (cases "r = []")
      case True
      then show ?thesis
        unfolding eq by (simp add: str_replace_Nil)
    next
      case False
      with "1.prems" r have "suffix ''.mp4'' r"
        using mp4_self_overlap by blast
      moreover have "length r < length s"
        using r by simp
      ultimately have "suffix ''.mkv'' (str_replace ''.mp4'' ''.mkv'' r)"
        using "1.IH" by blast
      then show ?thesis
        unfolding eq by (rule suffix_appendI)
    qed
  next
    case False
    then have eq: "str_replace ''.mp4'' ''.mkv'' s = c # str_replace ''.mp4'' ''.mkv'' cs"
      unfolding s by (intro str_replace_miss) simp_all
    from False have "s \<noteq> ''.mp4''"
      by auto
    with "1.prems" have "suffix ''.mp4'' cs"
      unfolding s by (auto simp: suffix_Cons)
    then have "suffix ''.mkv'' (str_replace ''.mp4'' ''.mkv'' cs)"
      using "1.IH" s by simp
    then show ?thesis
      unfolding eq by (rule suffix_ConsI)
  qed
qed

lemma replace_absent:
  "old \<noteq> [] \<Longrightarrow> \<not> sublist old s \<Longrightarrow> str_replace old new s = s"
proof (induction s)
  case Nil
  then show ?case by (simp add: str_replace_Nil)
next
  case (Cons c cs)
  then show ?case
    by (simp add: str_replace_miss sublist_Cons_right)
qed

lemma replace_head:
  assumes "str_replace ''.mp4'' ''.mkv'' s = x # r" and "x \<noteq> CHR ''.''"
  shows "\<exists>t. s = x # t \<and> str_replace ''.mp4'' ''.mkv'' t = r"
proof (cases s)
  case Nil
  with assms show ?thesis by (simp add: str_replace_Nil)
next
  case (Cons c cs)
  show ?thesis
  proof (cases "prefix ''.mp4'' s")
    case True
    then obtain u where "s = ''.mp4'' @ u"
      by (auto simp: prefix_def)
    then have "str_replace ''.mp4'' ''.mkv'' s = ''.mkv'' @ str_replace ''.mp4'' ''.mkv'' u"
      using str_replace_hit [of "''.mp4''" "''.mkv''" u] by simp
    with assms show ?thesis by simp
  next
    case False
    then have "str_replace ''.mp4'' ''.mkv'' s = c # str_replace ''.mp4'' ''.mkv'' cs"
      unfolding Cons by (intro str_replace_miss) simp_all
    with assms Cons show ?thesis by simp
  qed
qed

lemma replace_keeps_mp4_head:
  assumes "prefix ''.mp4'' (c # str_replace ''.mp4'' ''.mkv'' cs)"
  shows "prefix ''.mp4'' (c # cs)"
proof -
  from assms obtain r where c: "c = CHR ''.''"
    and r: "str_replace ''.mp4'' ''.mkv'' cs = CHR ''m'' # CHR ''p'' # CHR ''4'' # r"
    by (auto simp: prefix_def)
  from replace_head [OF r] obtain t1 where t1: "cs = CHR ''m'' # t1"
    and r1: "str_replace ''.mp4'' ''.mkv'' t1 = CHR ''p'' # CHR ''4'' # r"
    by auto
  from replace_head [OF r1] obtain t2 where t2: "t1 = CHR ''p'' # t2"
    and r2: "str_replace ''.mp4'' ''.mkv'' t2 = CHR ''4'' # r"
    by auto
  from replace_head [OF r2] obtain t3 where t3: "t2 = CHR ''4'' # t3"
    by auto
  show ?thesis
    by (simp add: c t1 t2 t3)
qed

lemma replace_mp4_gone: "\<not> sublist ''.mp4'' (str_replace ''.mp4'' ''.mkv'' s)"
proof (induction s rule: length_induct)
  case (1 s)
  show ?case
  proof (cases s)
    case Nil
    then show ?thesis by (simp add: str_replace_Nil)
  next
    case (Cons c cs)
    show ?thesis
    proof (cases "prefix ''.mp4'' s")
      case True
      then obtain r where r: "s = ''.mp4'' @ r"
        by (auto simp: prefix_def)
      have eq: "str_replace ''.mp4'' ''.mkv'' s = ''.mkv'' @ str_replace ''.mp4'' ''.mkv'' r"
        unfolding r by (rule str_replace_hit) simp
      have "\<not> sublist ''.mp4'' (str_replace ''.mp4'' ''.mkv'' r)"
        using "1.IH" r by simp
      then show ?thesis
        unfolding eq by (simp add: sublist_Cons_right)
    next
      case False
      then have eq: "str_replace ''.mp4'' ''.mkv'' s = c # str_replace ''.mp4'' ''.mkv'' cs"
        unfolding Cons by (intro str_replace_miss) simp_all
      have "\<not> sublist ''.mp4'' (str_replace ''.mp4'' ''.mkv'' cs)"
        using "1.IH" Cons by simp
      moreover have "\<not> prefix ''.mp4'' (c # str_replace ''.mp4'' ''.mkv'' cs)"
        using False replace_keeps_mp4_head unfolding Cons by blast
      ultimately show ?thesis
        unfolding eq by (simp only: sublist_Cons_right) simp
    qed
  qed
qed

lemma replace_only_trailing:
  "\<not> sublist ''.mp4'' (butlast s) \<Longrightarrow>
     str_replace ''.mp4'' ''.mkv'' s = suffix_substitution ''.mp4'' ''.mkv'' s"
proof (induction s)
  case Nil
  then show ?case
    by (simp add: str_replace_Nil suffix_substitution_def)
next
  case (Cons c cs)
  show ?case
  proof (cases "prefix ''.mp4'' (c # cs)")
    case True
    then obtain r where r: "c # cs = ''.mp4'' @ r"
      by (auto simp: prefix_def)
    have "r = []"
    proof (rule ccontr)
      assume "r \<noteq> []"
      then have "butlast (c # cs) = ''.mp4'' @ butlast r"
        unfolding r by (simp add: butlast_append)
      with Cons.prems show False
        by (metis sublist_append_rightI)
    qed
    with r have s: "c # cs = ''.mp4''" by simp
    show ?thesis
      unfolding s using str_replace_hit [of "''.mp4''" "''.mkv''" "[]"]
      by (simp add: str_replace_Nil suffix_substitution_def)
  next
    case False
    then have eq: "str_replace ''.mp4'' ''.mkv'' (c # cs) = c # str_replace ''.mp4'' ''.mkv'' cs"
      by (intro str_replace_miss) simp_all
    show ?thesis
    proof (cases "cs = []")
      case True
      then show ?thesis
        unfolding eq by (simp add: str_replace_Nil suffix_substitution_def suffix_Cons)
    next
      case nonempty: False
      with Cons.prems have "\<not> sublist ''.mp4'' (butlast cs)"
        by (simp add: sublist_Cons_right)
      then have ih: "str_replace ''.mp4'' ''.mkv'' cs = suffix_substitution ''.mp4'' ''.mkv'' cs"
        by (rule Cons.IH)
      from False have ne: "c # cs \<noteq> ''.mp4''"
        by auto
      have "suffix_substitution ''.mp4'' ''.mkv'' (c # cs)
              = c # suffix_substitution ''.mp4'' ''.mkv'' cs"
      proof (cases "suffix ''.mp4'' cs")
        case True
        then have "4 \<le> length cs"
          using suffix_length_le by fastforce
        with True show ?thesis
          by (simp add: suffix_substitution_def suffix_ConsI take_Cons')
      next
        case False
        with ne have "\<not> suffix ''.mp4'' (c # cs)"
          by (auto simp: suffix_Cons)
        with False show ?thesis
          by (simp add: suffix_substitution_def)
      qed
      with ih show ?thesis
        unfolding eq by simp
    qed
  qed
qed

subsection \<open>Exceptions raised while a line is parsed\<close>

lemma py_float_error: "py_float s = Inl e \<Longrightarrow> e = ValueError"
  by (auto simp: py_float_def split: option.splits)

lemma hms_error: "hms gs = Inl e \<Longrightarrow> e = ValueError"
  by (auto simp: hms_def split: list.splits sum.splits dest: py_float_error)

lemma extract_duration_error: "extract_duration d line = Inl e \<Longrightarrow> e = ValueError"
  by (auto simp: extract_duration_def split: if_splits option.splits sum.splits dest: hms_error)

lemma extract_duration_known [simp]: "extract_duration (Some d) line = Inr (Some d)"
  by (simp add: extract_duration_def)

lemma extract_duration_no_match:
  "re_search duration_re line = None \<Longrightarrow> extract_duration None line = Inr None"
  by (simp add: extract_duration_def)

lemma extract_progress_unknown [simp]: "extract_progress None line = Inr None"
  by (simp add: extract_progress_def split: option.splits)

lemma extract_progress_zero [simp]: "extract_progress (Some 0) line = Inr None"
  by (simp add: extract_progress_def split: option.splits)

lemma extract_progress_error:
  "extract_progress d line = Inl e \<Longrightarrow> e = ValueError \<or> e = IndexError"
  by (auto simp: extract_progress_def py_truediv_def group1_def
           split: if_splits option.splits sum.splits list.splits
           dest: hms_error py_float_error)


subsection \<open>The loop body and the loop\<close>

lemma step_known:
  "duration st = Some d \<Longrightarrow>
     step cb st line =
       (case extract_progress (Some d) line of
          Inl e \<Rightarrow> (Some e, st)
        | Inr None \<Rightarrow> (None, st)
        | Inr (Some smp) \<Rightarrow>
            (case cb of
               None \<Rightarrow> (None, st)
             | Some f \<Rightarrow> (f (calls st) smp, st\<lparr>calls := calls st @ [smp]\<rparr>)))"
  by (cases st) (simp add: step_def split: sum.splits option.splits)

lemma step_unknown:
  "duration st = None \<Longrightarrow> extract_duration None line = Inr None \<Longrightarrow>
     step cb st line = (None, st)"
  by (cases st) (simp add: step_def)

lemma step_first_duration:
  "duration st = None \<Longrightarrow> extract_duration None line = Inr (Some d) \<Longrightarrow>
     step cb st line = step cb (st\<lparr>duration := Some d\<rparr>) line"
  by (cases st) (simp add: step_def split: sum.splits option.splits)

lemma step_duration_known:
  "duration st = Some d \<Longrightarrow> duration (snd (step cb st line)) = Some d"
  by (simp add: step_known split: sum.splits option.splits)

lemma monitor_duration_known:
  "duration st = Some d \<Longrightarrow> duration (snd (monitor cb ls st)) = Some d"
proof (induction ls arbitrary: st)
  case Nil
  then show ?case by simp
next
  case (Cons l ls)
  obtain r st' where r: "step cb st l = (r, st')"
    by (cases "step cb st l")
  with Cons.prems have "duration st' = Some d"
    using step_duration_known [of st d cb l] by simp
  with Cons.IH r show ?case
    by (cases r) simp_all
qed

lemma monitor_append:
  "monitor cb (xs @ ys) st =
     (case monitor cb xs st of
        (Some e, st') \<Rightarrow> (Some e, st')
      | (None, st') \<Rightarrow> monitor cb ys st')"
  by (induction xs arbitrary: st) (auto split: prod.splits option.splits)

lemma monitor_no_duration:
  "list_all (\<lambda>x. extract_duration None x = Inr None) pre \<Longrightarrow> duration st = None \<Longrightarrow>
     monitor cb pre st = (None, st)"
  by (induction pre) (simp_all add: step_unknown)

lemma monitor_zero: "duration st = Some 0 \<Longrightarrow> monitor cb ls st = (None, st)"
  by (induction ls) (simp_all add: step_known)

lemma step_no_callback: "calls (snd (step None st line)) = calls st"
  by (simp add: step_def split: sum.splits option.splits)

lemma monitor_no_callback: "calls (snd (monitor None ls st)) = calls st"
proof (induction ls arbitrary: st)
  case Nil
  then show ?case by simp
next
  case (Cons l ls)
  obtain r st' where r: "step None st l = (r, st')"
    by (cases "step None st l")
  then have "calls st' = calls st"
    using step_no_callback [of st l] by simp
  with Cons.IH [of st'] r show ?case
    by (cases r) simp_all
qed

lemma monitor_samples_prefix:
  "duration st = Some d \<Longrightarrow>
     \<exists>ys. prefix ys (samples_of d ls) \<and>
          calls (snd (monitor (Some f) ls st)) = calls st @ ys"
proof (induction ls arbitrary: st)
  case Nil
  then show ?case by (simp add: samples_of_def)
next
  case (Cons l ls)
  note step = step_known [OF Cons.prems, of "Some f" l]
  show ?case
  proof (cases "extract_progress (Some d) l")
    case (Inl e)
    with step show ?thesis
      by (simp add: samples_of_def)
  next
    case (Inr so)
    show ?thesis
    proof (cases so)
      case None
      with Inr step Cons.IH [OF Cons.prems] show ?thesis
        by (simp add: samples_of_def)
    next
      case (Some smp)
      let ?st = "st\<lparr>calls := calls st @ [smp]\<rparr>"
      have d: "duration ?st = Some d"
        using Cons.prems by simp
      from Cons.IH [OF d] obtain ys where ys: "prefix ys (samples_of d ls)"
        and c: "calls (snd (monitor (Some f) ls ?st)) = calls ?st @ ys"
        by blast
      have all: "samples_of d (l # ls) = smp # samples_of d ls"
        using Inr Some by (simp add: samples_of_def)
      show ?thesis
      proof (cases "f (calls st) smp")
        case None
        with Inr Some step c have "calls (snd (monitor (Some f) (l # ls) st)) = calls st @ smp # ys"
          by simp
        moreover have "prefix (smp # ys) (samples_of d (l # ls))"
          using ys all by simp
        ultimately show ?thesis
          by blast
      next
        case raised: (Some e)
        with Inr Some step have "calls (snd (monitor (Some f) (l # ls) st)) = calls st @ [smp]"
          by simp
        moreover have "prefix [smp] (samples_of d (l # ls))"
          using all by simp
        ultimately show ?thesis
          by blast
      qed
    qed
  qed
qed

lemma monitor_samples_all:
  "duration st = Some d \<Longrightarrow> fst (monitor (Some f) ls st) = None \<Longrightarrow>
     calls (snd (monitor (Some f) ls st)) = calls st @ samples_of d ls"
proof (induction ls arbitrary: st)
  case Nil
  then show ?case by (simp add: samples_of_def)
next
  case (Cons l ls)
  note step = step_known [OF Cons.prems(1), of "Some f" l]
  show ?case
  proof (cases "extract_progress (Some d) l")
    case (Inl e)
    with step Cons.prems(2) show ?thesis
      by simp
  next
    case (Inr so)
    show ?thesis
    proof (cases so)
      case None
      with Inr step Cons.IH [OF Cons.prems(1)] Cons.prems(2) show ?thesis
        by (simp add: samples_of_def)
    next
      case (Some smp)
      let ?st = "st\<lparr>calls := calls st @ [smp]\<rparr>"
      have d: "duration ?st = Some d"
        using Cons.prems(1) by simp
      show ?thesis
      proof (cases "f (calls st) smp")
        case None
        with Inr Some step Cons.prems(2) have "fst (monitor (Some f) ls ?st) = None"
          by simp
        from Cons.IH [OF d this] None Inr Some step show ?thesis
          by (simp add: samples_of_def)
      next
        case raised: (Some e)
        with Inr Some step Cons.prems(2) show ?thesis
          by simp
      qed
    qed
  qed
qed

subsection \<open>The synthetic stream of the specification\<close>

lemma line_duration: "extract_duration None ''Duration: 00:10:00.00'' = Inr (Some 600)"
  by code_simp

lemma line_duration_time: "extract_progress (Some 600) ''Duration: 00:10:00.00'' = Inr None"
  by code_simp

lemma line_progress:
  "extract_progress (Some 600) ''time=00:05:00.00 speed=2.0x'' =
     Inr (Some \<lparr>percentage = 50, speed = 2, eta = ''2m 30s''\<rparr>)"
  by code_simp

lemma monitor_example:
  "calls (snd (monitor (Some f) [''Duration: 00:10:00.00'', ''time=00:05:00.00 speed=2.0x''] initial))
     = [\<lparr>percentage = 50, speed = 2, eta = ''2m 30s''\<rparr>]"
  by (simp add: step_def initial_def line_duration line_duration_time line_progress
        split: option.splits)

lemma plan_3:
  "plan 3 ''video.mp4'' ''subtitles.srt'' ''output.mp4'' =
     Some (''output.mp4'',
       [''ffmpeg'', ''-i'', ''video.mp4'', ''-vf'', ''subtitles=subtitles.srt'',
        ''-c:v'', ''libx264'', ''-preset'', ''ultrafast'', ''-c:a'', ''copy'', ''output.mp4''])"
  by (simp add: plan_def)

text \<open>
  Claim C4.  When the process writes the line \<open>Duration: 00:10:00.00\<close> followed by the
  line \<open>time=00:05:00.00 speed=2.0x\<close>, the callback is called exactly once, with
  percentage 50, speed 2 and eta \<open>2m 30s\<close>, whatever the mode, the paths, the exit code
  and the behaviour of the callback.
\<close>

theorem synthetic_stream_sample:
  assumes "path_exists env inputvideo" and "path_exists env sub"
    and "plan type inputvideo sub output = Some (output', command)"
    and "popen env command =
           Inr ([''Duration: 00:10:00.00'', ''time=00:05:00.00 speed=2.0x''], returncode)"
  shows "observed (mergeSub env type inputvideo sub output (Some f)) =
           [\<lparr>percentage = 50, speed = 2, eta = ''2m 30s''\<rparr>]"
proof -
  let ?m = "monitor (Some f) [''Duration: 00:10:00.00'', ''time=00:05:00.00 speed=2.0x''] initial"
  obtain r st where m: "?m = (r, st)"
    by (cases ?m)
  with monitor_example [of f] have "calls st = [\<lparr>percentage = 50, speed = 2, eta = ''2m 30s''\<rparr>]"
    by simp
  with assms m show ?thesis
    by (cases r) (simp_all add: mergeSub_def handle_def)
qed

theorem synthetic_stream_sample_witness:
  "path_exists (stub_env [''Duration: 00:10:00.00'', ''time=00:05:00.00 speed=2.0x''] 0) ''video.mp4''
   \<and> observed (mergeSub (stub_env [''Duration: 00:10:00.00'', ''time=00:05:00.00 speed=2.0x''] 0)
         3 ''video.mp4'' ''subtitles.srt'' ''output.mp4'' (Some quiet)) =
       [\<lparr>percentage = 50, speed = 2, eta = ''2m 30s''\<rparr>]"
  using synthetic_stream_sample
    [of "stub_env [''Duration: 00:10:00.00'', ''time=00:05:00.00 speed=2.0x''] 0"
        "''video.mp4''" "''subtitles.srt''" 3 "''output.mp4''" _ _ 0 quiet, OF _ _ plan_3]
  by (simp add: stub_env_def)

subsection \<open>Missing input video\<close>



subsection \<open>The output path in mode 1\<close>

lemma plan_1:
  "plan 1 inputvideo sub output =
     Some (str_replace ''.mp4'' ''.mkv'' output,
       [''ffmpeg'', ''-i'', inputvideo, ''-i'', sub, ''-map'', ''0'', ''-map'', ''1'',
        ''-c'', ''copy'', str_replace ''.mp4'' ''.mkv'' output])"
  by (simp add: plan_def Let_def)

text \<open>
  Claim C1 says that in mode 1 the output path always ends in \<open>.mkv\<close>.  Line 34 only
  replaces the text \<open>.mp4\<close>: a path with another extension is passed to ffmpeg as it is.
\<close>

theorem avi_stays_avi:
  "plan 1 ''video.mp4'' ''subtitles.srt'' ''movie.avi'' =
     Some (''movie.avi'',
       [''ffmpeg'', ''-i'', ''video.mp4'', ''-i'', ''subtitles.srt'', ''-map'', ''0'',
        ''-map'', ''1'', ''-c'', ''copy'', ''movie.avi''])
   \<and> \<not> suffix ''.mkv'' ''movie.avi''"
  by code_simp

text \<open>
  Claim C1, as the code has it.  In mode 1 a requested output path that ends in \<open>.mp4\<close>
  is planned with a path that ends in \<open>.mkv\<close>, and this path is the last argument of the
  command; a requested path in which \<open>.mp4\<close> does not occur is kept unchanged, whatever
  its extension.
\<close>

theorem mp4_becomes_mkv:
  "(suffix ''.mp4'' output \<longrightarrow>
      (\<exists>output' command. plan 1 inputvideo sub output = Some (output', command)
         \<and> suffix ''.mkv'' output' \<and> last command = output'))
   \<and> (\<not> sublist ''.mp4'' output \<longrightarrow>
        (\<exists>command. plan 1 inputvideo sub output = Some (output, command)
           \<and> last command = output))"
  by (simp add: plan_1 replace_mp4_suffix replace_absent)

theorem mp4_becomes_mkv_witness:
  "suffix ''.mp4'' ''output.mp4''
   \<and> (\<exists>output' command. plan 1 ''video.mp4'' ''subtitles.srt'' ''output.mp4'' = Some (output', command)
         \<and> suffix ''.mkv'' output' \<and> last command = output')
   \<and> \<not> sublist ''.mp4'' ''movie.avi''
   \<and> (\<exists>command. plan 1 ''video.mp4'' ''subtitles.srt'' ''movie.avi'' = Some (''movie.avi'', command)
         \<and> last command = ''movie.avi'')"
proof -
  have a: "suffix ''.mp4'' ''output.mp4''"
    by code_simp
  have b: "\<not> sublist ''.mp4'' ''movie.avi''"
    by code_simp
  from a b
    mp4_becomes_mkv [of "''output.mp4''" "''video.mp4''" "''subtitles.srt''"]
    mp4_becomes_mkv [of "''movie.avi''" "''video.mp4''" "''subtitles.srt''"]
  show ?thesis
    by blast
qed

text \<open>
  Claim C3 says that only the trailing extension is replaced.  \<open>str.replace\<close> replaces
  every occurrence: in \<open>clips.mp4/out.mp4\<close> the directory name is rewritten too, where a
  suffix substitution would leave it.
\<close>

theorem every_occurrence_replaced:
  "plan 1 ''video.mp4'' ''subtitles.srt'' ''clips.mp4/out.mp4'' =
     Some (''clips.mkv/out.mkv'',
       [''ffmpeg'', ''-i'', ''video.mp4'', ''-i'', ''subtitles.srt'', ''-map'', ''0'',
        ''-map'', ''1'', ''-c'', ''copy'', ''clips.mkv/out.mkv''])
   \<and> suffix_substitution ''.mp4'' ''.mkv'' ''clips.mp4/out.mp4'' = ''clips.mp4/out.mkv''"
  by code_simp

text \<open>
  What \<open>str.replace\<close> does, piece by piece: after a piece in which \<open>.mp4\<close> does not
  occur, an occurrence is replaced and the rest is rewritten in the same way.
\<close>

lemma mp4_not_ahead:
  assumes "\<not> sublist ''.mp4'' (c # cs)"
  shows "\<not> prefix ''.mp4'' (c # cs @ ''.mp4'' @ r)"
proof
  assume p: "prefix ''.mp4'' (c # cs @ ''.mp4'' @ r)"
  have "prefix ''.mp4'' (c # cs)"
  proof (cases cs)
    case Nil
    with p show ?thesis by simp
  next
    case c1: (Cons a1 cs1)
    show ?thesis
    proof (cases cs1)
      case Nil
      with p c1 show ?thesis by simp
    next
      case c2: (Cons a2 cs2)
      show ?thesis
      proof (cases cs2)
        case Nil
        with p c1 c2 show ?thesis by simp
      next
        case (Cons a3 cs3)
        with p c1 c2 show ?thesis by simp
      qed
    qed
  qed
  with assms show False
    by (simp add: sublist_Cons_right)
qed

lemma replace_past_piece:
  "\<not> sublist ''.mp4'' u \<Longrightarrow>
     str_replace ''.mp4'' ''.mkv'' (u @ ''.mp4'' @ r) = u @ ''.mkv'' @ str_replace ''.mp4'' ''.mkv'' r"
proof (induction u)
  case Nil
  show ?case
    using str_replace_hit [of "''.mp4''" "''.mkv''" r] by simp
next
  case (Cons c cs)
  from Cons.prems have "\<not> sublist ''.mp4'' cs"
    by (simp add: sublist_Cons_right)
  then have ih: "str_replace ''.mp4'' ''.mkv'' (cs @ ''.mp4'' @ r)
                   = cs @ ''.mkv'' @ str_replace ''.mp4'' ''.mkv'' r"
    by (rule Cons.IH)
  have "''.mp4'' \<noteq> []"
    by simp
  then have "str_replace ''.mp4'' ''.mkv'' (c # cs @ ''.mp4'' @ r)
          = c # str_replace ''.mp4'' ''.mkv'' (cs @ ''.mp4'' @ r)"
    using mp4_not_ahead [OF Cons.prems] by (rule str_replace_miss)
  with ih show ?case
    by simp
qed

lemma replace_join:
  "us \<noteq> [] \<Longrightarrow> list_all (\<lambda>u. \<not> sublist ''.mp4'' u) us \<Longrightarrow>
     str_replace ''.mp4'' ''.mkv'' (str_join ''.mp4'' us) = str_join ''.mkv'' us"
proof (induction us)
  case Nil
  then show ?case by simp
next
  case (Cons u us)
  show ?case
  proof (cases us)
    case Nil
    with Cons.prems show ?thesis
      by (simp add: replace_absent)
  next
    case (Cons v vs)
    from Cons.prems have u: "\<not> sublist ''.mp4'' u"
      by simp
    have "str_replace ''.mp4'' ''.mkv'' (u @ ''.mp4'' @ str_join ''.mp4'' us)
            = u @ ''.mkv'' @ str_replace ''.mp4'' ''.mkv'' (str_join ''.mp4'' us)"
      using u by (rule replace_past_piece)
    also have "str_replace ''.mp4'' ''.mkv'' (str_join ''.mp4'' us) = str_join ''.mkv'' us"
      using Cons.IH Cons.prems Cons by simp
    finally show ?thesis
      unfolding Cons by simp
  qed
qed

lemma pieces_exist:
  "\<exists>us. us \<noteq> [] \<and> list_all (\<lambda>u. \<not> sublist ''.mp4'' u) us \<and> s = str_join ''.mp4'' us"
proof (induction s rule: length_induct)
  case (1 s)
  show ?case
  proof (cases s)
    case Nil
    have "[[]] \<noteq> [] \<and> list_all (\<lambda>u. \<not> sublist ''.mp4'' u) [[]] \<and> s = str_join ''.mp4'' [[]]"
      using Nil by simp
    then show ?thesis
      by blast
  next
    case (Cons c cs)
    show ?thesis
    proof (cases "prefix ''.mp4'' s")
      case True
      then obtain r where r: "s = ''.mp4'' @ r"
        by (auto simp: prefix_def)
      then have "length r < length s"
        by simp
      with "1.IH" obtain us where us: "us \<noteq> []" "list_all (\<lambda>u. \<not> sublist ''.mp4'' u) us"
        "r = str_join ''.mp4'' us"
        by blast
      from us(1) obtain v vs where v: "us = v # vs"
        by (cases us) auto
      have "[] # us \<noteq> [] \<and> list_all (\<lambda>u. \<not> sublist ''.mp4'' u) ([] # us)
            \<and> s = str_join ''.mp4'' ([] # us)"
        using us r v by simp
      then show ?thesis
        by blast
    next
      case False
      have "length cs < length s"
        using Cons by simp
      with "1.IH" obtain us where us: "us \<noteq> []" "list_all (\<lambda>u. \<not> sublist ''.mp4'' u) us"
        "cs = str_join ''.mp4'' us"
        by blast
      from us(1) obtain v vs where v: "us = v # vs"
        by (cases us) auto
      have pre: "prefix v cs"
        using us(3) v by (cases vs) simp_all
      have "\<not> prefix ''.mp4'' (c # v)"
      proof
        assume "prefix ''.mp4'' (c # v)"
        moreover have "prefix (c # v) (c # cs)"
          using pre by simp
        ultimately have "prefix ''.mp4'' (c # cs)"
          by (rule prefix_order.trans)
        with False Cons show False
          by simp
      qed
      moreover have "\<not> sublist ''.mp4'' v"
        using us(2) v by simp
      ultimately have free: "\<not> sublist ''.mp4'' (c # v)"
        by (simp add: sublist_Cons_right)
      have "s = str_join ''.mp4'' ((c # v) # vs)"
        using us(3) v Cons by (cases vs) simp_all
      with free us(2) v
      have "(c # v) # vs \<noteq> [] \<and> list_all (\<lambda>u. \<not> sublist ''.mp4'' u) ((c # v) # vs)
            \<and> s = str_join ''.mp4'' ((c # v) # vs)"
        by simp
      then show ?thesis
        by blast
    qed
  qed
qed

lemma mp4_before_extension:
  assumes "sublist ''.mp4'' (q @ ''.mp'')"
  shows "sublist ''.mp4'' q"
proof -
  from assms consider "sublist ''.mp4'' q" | "sublist ''.mp4'' ''.mp''"
    | xs1 xs2 where "''.mp4'' = xs1 @ xs2" "suffix xs1 q" "prefix xs2 ''.mp''"
    unfolding sublist_append by blast
  then show ?thesis
  proof cases
    case 1
    then show ?thesis .
  next
    case 2
    then have "length ''.mp4'' \<le> length ''.mp''"
      by (rule sublist_length_le)
    then show ?thesis by simp
  next
    case 3
    from 3(1) have "xs2 = [] \<or> xs2 = ''4'' \<or> xs2 = ''p4'' \<or> xs2 = ''mp4'' \<or> xs2 = ''.mp4''"
      by (auto simp: Cons_eq_append_conv)
    with 3(3) have "xs2 = []"
      by auto
    with 3(1,2) show ?thesis
      by (auto simp: suffix_def)
  qed
qed

lemma suffix_substitution_keeps_inner:
  assumes "sublist ''.mp4'' (butlast s)"
  shows "sublist ''.mp4'' (suffix_substitution ''.mp4'' ''.mkv'' s)"
proof (cases "suffix ''.mp4'' s")
  case False
  from assms obtain ps ss where "butlast s = ps @ ''.mp4'' @ ss"
    by (auto simp: sublist_def)
  moreover have "s \<noteq> []"
    using assms by auto
  ultimately have "s = ps @ ''.mp4'' @ (ss @ [last s])"
    using append_butlast_last_id [of s] by simp
  then have "sublist ''.mp4'' s"
    unfolding sublist_def by blast
  with False show ?thesis
    by (simp add: suffix_substitution_def)
next
  case True
  then obtain q where q: "s = q @ ''.mp4''"
    by (auto simp: suffix_def)
  then have "butlast s = q @ ''.mp''"
    by (simp add: butlast_append)
  with assms have "sublist ''.mp4'' q"
    using mp4_before_extension by simp
  then have "sublist ''.mp4'' (q @ ''.mkv'')"
    by (simp add: sublist_append)
  with True q show ?thesis
    by (simp add: suffix_substitution_def)
qed

text \<open>
  Claim C3, as the code has it.  In mode 1 the rewrite replaces every occurrence of
  \<open>.mp4\<close> in the output path by \<open>.mkv\<close> and keeps the rest: however the path is cut into
  pieces free of \<open>.mp4\<close> joined by \<open>.mp4\<close>, the planned path is the same pieces joined
  by \<open>.mkv\<close>, and every path can be cut so; hence no \<open>.mp4\<close> is left in the planned
  path.  The rewrite is the single suffix substitution exactly when \<open>.mp4\<close> occurs
  nowhere in the path before the trailing extension.
\<close>

theorem rewrite_replaces_all:
  assumes "plan 1 inputvideo sub output = Some (output', command)"
  shows "(\<forall>us. us \<noteq> [] \<and> list_all (\<lambda>u. \<not> sublist ''.mp4'' u) us
              \<and> output = str_join ''.mp4'' us \<longrightarrow> output' = str_join ''.mkv'' us)
         \<and> (\<exists>us. us \<noteq> [] \<and> list_all (\<lambda>u. \<not> sublist ''.mp4'' u) us
              \<and> output = str_join ''.mp4'' us)
         \<and> \<not> sublist ''.mp4'' output'
         \<and> (output' = suffix_substitution ''.mp4'' ''.mkv'' output
              \<longleftrightarrow> \<not> sublist ''.mp4'' (butlast output))"
proof -
  from assms have o: "output' = str_replace ''.mp4'' ''.mkv'' output"
    by (simp add: plan_1)
  have gone: "\<not> sublist ''.mp4'' output'"
    unfolding o by (rule replace_mp4_gone)
  have differs: "output' \<noteq> suffix_substitution ''.mp4'' ''.mkv'' output"
    if "sublist ''.mp4'' (butlast output)"
  proof
    assume "output' = suffix_substitution ''.mp4'' ''.mkv'' output"
    with suffix_substitution_keeps_inner [OF that] gone show False
      by simp
  qed
  have agrees: "output' = suffix_substitution ''.mp4'' ''.mkv'' output"
    if "\<not> sublist ''.mp4'' (butlast output)"
    unfolding o using that by (rule replace_only_trailing)
  have iff: "output' = suffix_substitution ''.mp4'' ''.mkv'' output
               \<longleftrightarrow> \<not> sublist ''.mp4'' (butlast output)"
    using differs agrees by blast
  have every: "\<forall>us. us \<noteq> [] \<and> list_all (\<lambda>u. \<not> sublist ''.mp4'' u) us
                 \<and> output = str_join ''.mp4'' us \<longrightarrow> output' = str_join ''.mkv'' us"
    unfolding o by (intro allI impI, elim conjE) (simp add: replace_join)
  have pieces: "\<exists>us. us \<noteq> [] \<and> list_all (\<lambda>u. \<not> sublist ''.mp4'' u) us
                 \<and> output = str_join ''.mp4'' us"
    by (rule pieces_exist)
  from every pieces gone iff show ?thesis
    by (intro conjI)
qed

lemma clips_path:
  "plan 1 ''video.mp4'' ''subtitles.srt'' ''clips.mp4/out.mp4'' =
     Some (''clips.mkv/out.mkv'',
       [''ffmpeg'', ''-i'', ''video.mp4'', ''-i'', ''subtitles.srt'', ''-map'', ''0'',
        ''-map'', ''1'', ''-c'', ''copy'', ''clips.mkv/out.mkv''])"
  "[''clips'', ''/out'', []] \<noteq> []
   \<and> list_all (\<lambda>u. \<not> sublist ''.mp4'' u) [''clips'', ''/out'', []]
   \<and> ''clips.mp4/out.mp4'' = str_join ''.mp4'' [''clips'', ''/out'', []]"
  "sublist ''.mp4'' (butlast ''clips.mp4/out.mp4'')"
  by code_simp+

lemma my_video_path:
  "plan 1 ''video.mp4'' ''subtitles.srt'' ''my.video.mp4'' =
     Some (''my.video.mkv'',
       [''ffmpeg'', ''-i'', ''video.mp4'', ''-i'', ''subtitles.srt'', ''-map'', ''0'',
        ''-map'', ''1'', ''-c'', ''copy'', ''my.video.mkv''])"
  "\<not> sublist ''.mp4'' (butlast ''my.video.mp4'')"
  by code_simp+

theorem rewrite_replaces_all_witness:
  "plan 1 ''video.mp4'' ''subtitles.srt'' ''clips.mp4/out.mp4'' =
     Some (''clips.mkv/out.mkv'',
       [''ffmpeg'', ''-i'', ''video.mp4'', ''-i'', ''subtitles.srt'', ''-map'', ''0'',
        ''-map'', ''1'', ''-c'', ''copy'', ''clips.mkv/out.mkv''])
   \<and> ''clips.mp4/out.mp4'' = str_join ''.mp4'' [''clips'', ''/out'', []]
   \<and> ''clips.mkv/out.mkv'' = str_join ''.mkv'' [''clips'', ''/out'', []]
   \<and> \<not> sublist ''.mp4'' ''clips.mkv/out.mkv''
   \<and> sublist ''.mp4'' (butlast ''clips.mp4/out.mp4'')
   \<and> ''clips.mkv/out.mkv'' \<noteq> suffix_substitution ''.mp4'' ''.mkv'' ''clips.mp4/out.mp4''
   \<and> plan 1 ''video.mp4'' ''subtitles.srt'' ''my.video.mp4'' =
     Some (''my.video.mkv'',
       [''ffmpeg'', ''-i'', ''video.mp4'', ''-i'', ''subtitles.srt'', ''-map'', ''0'',
        ''-map'', ''1'', ''-c'', ''copy'', ''my.video.mkv''])
   \<and> \<not> sublist ''.mp4'' (butlast ''my.video.mp4'')
   \<and> ''my.video.mkv'' = suffix_substitution ''.mp4'' ''.mkv'' ''my.video.mp4''"
proof -
  note clips = rewrite_replaces_all [OF clips_path(1)]
  note mine = rewrite_replaces_all [OF my_video_path(1)]
  have joined: "''clips.mkv/out.mkv'' = str_join ''.mkv'' [''clips'', ''/out'', []]"
    by (rule clips [THEN conjunct1, rule_format, OF clips_path(2)])
  have gone: "\<not> sublist ''.mp4'' ''clips.mkv/out.mkv''"
    by (rule clips [THEN conjunct2, THEN conjunct2, THEN conjunct1])
  have differs: "''clips.mkv/out.mkv'' \<noteq> suffix_substitution ''.mp4'' ''.mkv'' ''clips.mp4/out.mp4''"
    using clips [THEN conjunct2, THEN conjunct2, THEN conjunct2] clips_path(3) by blast
  have agrees: "''my.video.mkv'' = suffix_substitution ''.mp4'' ''.mkv'' ''my.video.mp4''"
    using mine [THEN conjunct2, THEN conjunct2, THEN conjunct2] my_video_path(2) by blast
  from clips_path my_video_path joined gone differs agrees show ?thesis
    by blast
qed

subsection \<open>Malformed markers\<close>

lemma plan_3_any:
  "plan 3 inputvideo sub output =
     Some (output,
       [''ffmpeg'', ''-i'', inputvideo, ''-vf'', ''subtitles='' @ sub,
        ''-c:v'', ''libx264'', ''-preset'', ''ultrafast'', ''-c:a'', ''copy'', output])"
  by (simp add: plan_def)

lemma timecode_line: "extract_duration None ''Duration: 00:10:00:00'' = Inl ValueError"
  by code_simp

lemma bad_speed_line:
  "extract_progress (Some 600) ''time=00:05:00.00 speed=1.2.3x'' = Inl ValueError"
  by code_simp

text \<open>
  Claim C2 says that a malformed marker is skipped and never changes the result of the
  job.  The time pattern of line 94 escapes its dot; the duration pattern of line 87 does
  not, so it also accepts \<open>Duration: 00:10:00:00\<close>, whose last group \<open>00:00\<close> makes
  \<open>float\<close> raise \<open>ValueError\<close> on line 89.  The handler of line 125 turns this into
  \<open>False\<close>, although the process exits with code 0; without that line the same run
  returns \<open>True\<close>.
\<close>

theorem malformed_duration_fails_job:
  "returned (mergeSub (stub_env [''Duration: 00:10:00:00''] 0)
       3 ''video.mp4'' ''subtitles.srt'' ''output.mp4'' None) = Inr False
   \<and> printed (mergeSub (stub_env [''Duration: 00:10:00:00''] 0)
       3 ''video.mp4'' ''subtitles.srt'' ''output.mp4'' None) = [Unexpected_error ValueError]
   \<and> returned (mergeSub (stub_env [] 0)
       3 ''video.mp4'' ''subtitles.srt'' ''output.mp4'' None) = Inr True"
  by (simp add: mergeSub_def stub_env_def plan_3_any step_def initial_def timecode_line
        handle_def)

text \<open>
  The speed pattern of line 101 has the same effect: \<open>[\d.]+\<close> accepts \<open>1.2.3\<close>, which
  is not a number.
\<close>

lemma malformed_speed_fails_job:
  "returned (mergeSub (stub_env [''Duration: 00:10:00.00'', ''time=00:05:00.00 speed=1.2.3x''] 0)
       3 ''video.mp4'' ''subtitles.srt'' ''output.mp4'' None) = Inr False"
  by (simp add: mergeSub_def stub_env_def plan_3_any step_def initial_def line_duration
        line_duration_time bad_speed_line handle_def)

text \<open>A line on which neither pattern matches is skipped, as most lines are.\<close>

lemma unmatched_line_skipped:
  "re_search duration_re line = None \<Longrightarrow> re_search time_re line = None \<Longrightarrow>
     step cb st line = (None, st)"
  by (cases st) (simp add: step_def extract_duration_def extract_progress_def)

subsection \<open>Progress lines before the duration is known\<close>

text \<open>
  Claim C6.  While no duration has been stored, a line that carries no duration marker
  leaves the state as it is and makes no call to the callback, whether or not it carries
  an elapsed-time marker, and raises nothing.
\<close>

theorem progress_before_duration_ignored:
  "duration st = None \<Longrightarrow> re_search duration_re line = None \<Longrightarrow>
     step cb st line = (None, st)"
  by (simp add: step_unknown extract_duration_no_match)

lemma no_duration_in_progress_line:
  "re_search duration_re ''time=00:05:00.00 speed=2.0x'' = None"
  by code_simp

lemma time_in_progress_line:
  "re_search time_re ''time=00:05:00.00 speed=2.0x'' = Some [''00'', ''05'', ''00.00'']"
  by code_simp

theorem progress_before_duration_ignored_witness:
  "duration initial = None
   \<and> re_search duration_re ''time=00:05:00.00 speed=2.0x'' = None
   \<and> re_search time_re ''time=00:05:00.00 speed=2.0x'' = Some [''00'', ''05'', ''00.00'']
   \<and> step (Some failing) initial ''time=00:05:00.00 speed=2.0x'' = (None, initial)"
proof -
  have d: "duration initial = None"
    by (simp add: initial_def)
  from d no_duration_in_progress_line time_in_progress_line
    progress_before_duration_ignored [OF d no_duration_in_progress_line, of "Some failing"]
  show ?thesis
    by blast
qed

subsection \<open>A speed of zero\<close>

lemma py_round2_zero: "py_round2 0 = 0"
  by (simp add: py_round2_def)

lemma str_int_zero: "str_int 0 = ''0''"
  by (simp add: str_int_def str_nat.simps)

lemma eta_zero: "py_int (py_floordiv 0 60) = 0" "py_int (py_mod 0 60) = 0"
  by (simp_all add: py_floordiv_def py_mod_def py_int_def)

text \<open>
  Claim C7.  On a progress line whose speed marker parses to zero, the sample is produced
  with the eta \<open>0m 0s\<close>: line 103 divides by the speed only when it is positive.  No line
  and no stored duration make the sample computation raise \<open>ZeroDivisionError\<close>.
\<close>

theorem zero_speed_eta:
  assumes "d \<noteq> 0" and "sublist ''time='' line"
    and "re_search time_re line = Some gs" and "hms gs = Inr elapsed"
    and "re_search speed_re line = Some (g # rest)" and "py_float g = Inr 0"
  shows "extract_progress (Some d) line =
           Inr (Some \<lparr>percentage = py_round2 (elapsed / d * 100), speed = 0, eta = ''0m 0s''\<rparr>)
         \<and> (\<forall>duration' line'. extract_progress duration' line' \<noteq> Inl ZeroDivisionError)"
proof
  show "extract_progress (Some d) line =
          Inr (Some \<lparr>percentage = py_round2 (elapsed / d * 100), speed = 0, eta = ''0m 0s''\<rparr>)"
    using assms
    by (simp add: extract_progress_def py_truediv_def group1_def py_round2_zero eta_zero
          str_int_zero)
  show "\<forall>duration' line'. extract_progress duration' line' \<noteq> Inl ZeroDivisionError"
    using extract_progress_error by fastforce
qed

lemma zero_speed_line:
  "sublist ''time='' ''time=00:05:00.00 speed=0.0x''"
  "re_search time_re ''time=00:05:00.00 speed=0.0x'' = Some [''00'', ''05'', ''00.00'']"
  "hms [''00'', ''05'', ''00.00''] = Inr 300"
  "re_search speed_re ''time=00:05:00.00 speed=0.0x'' = Some [''0.0'']"
  "py_float ''0.0'' = Inr 0"
  "py_round2 (300 / 600 * 100) = 50"
  by code_simp+

theorem zero_speed_eta_witness:
  "sublist ''time='' ''time=00:05:00.00 speed=0.0x''
   \<and> re_search speed_re ''time=00:05:00.00 speed=0.0x'' = Some [''0.0'']
   \<and> py_float ''0.0'' = Inr 0
   \<and> extract_progress (Some 600) ''time=00:05:00.00 speed=0.0x'' =
       Inr (Some \<lparr>percentage = 50, speed = 0, eta = ''0m 0s''\<rparr>)"
proof -
  have "(600::rat) \<noteq> 0"
    by simp
  from zero_speed_eta [OF this zero_speed_line(1-5)] zero_speed_line
  show ?thesis
    by simp
qed

subsection \<open>A duration of zero seconds\<close>

text \<open>
  Claim C9.  When the first duration marker of the stream parses to zero seconds, the
  stored zero fails the test \<open>match and duration\<close> of line 95 for every later line: the
  loop ends without an exception and without a single call to the callback, and the
  division of line 98 is never reached.
\<close>

theorem zero_duration_no_samples:
  assumes "list_all (\<lambda>x. extract_duration None x = Inr None) pre"
    and "extract_duration None l = Inr (Some 0)"
  shows "monitor cb (pre @ l # post) initial = (None, \<lparr>duration = Some 0, calls = []\<rparr>)
         \<and> (\<forall>later. extract_progress (Some 0) later = Inr None)"
proof -
  have i: "duration initial = None"
    by (simp add: initial_def)
  have "monitor cb (pre @ l # post) initial = monitor cb (l # post) initial"
    by (simp add: monitor_append monitor_no_duration [OF assms(1) i])
  also have "step cb initial l = (None, initial\<lparr>duration := Some 0\<rparr>)"
    by (simp add: step_first_duration [OF i assms(2)] step_known)
  then have "monitor cb (l # post) initial = monitor cb post (initial\<lparr>duration := Some 0\<rparr>)"
    by simp
  also have "\<dots> = (None, initial\<lparr>duration := Some 0\<rparr>)"
    by (rule monitor_zero) simp
  finally show ?thesis
    by (simp add: initial_def)
qed

lemma zero_duration_lines:
  "extract_duration None ''ffmpeg version 6.0'' = Inr None"
  "extract_duration None ''Duration: 00:00:00.00'' = Inr (Some 0)"
  by code_simp+

theorem zero_duration_no_samples_witness:
  "extract_duration None ''ffmpeg version 6.0'' = Inr None
   \<and> extract_duration None ''Duration: 00:00:00.00'' = Inr (Some 0)
   \<and> monitor (Some failing)
       [''ffmpeg version 6.0'', ''Duration: 00:00:00.00'', ''time=00:05:00.00 speed=2.0x'']
       initial = (None, \<lparr>duration = Some 0, calls = []\<rparr>)"
proof -
  have "list_all (\<lambda>x. extract_duration None x = Inr None) [''ffmpeg version 6.0'']"
    using zero_duration_lines(1) by simp
  from zero_duration_no_samples [OF this zero_duration_lines(2),
      of "Some failing" "[''time=00:05:00.00 speed=2.0x'']"]
    zero_duration_lines
  show ?thesis
    by simp
qed

subsection \<open>The first duration is the one that counts\<close>

text \<open>
  Claim C5.  Once a line has given the first duration \<open>d\<close>, the stored duration is \<open>d\<close>
  at the end of the stream whatever follows: a later duration marker leaves it unchanged
  (line 86 tests \<open>duration is None\<close>).  Every sample delivered to the callback is the one
  computed with \<open>d\<close>: the calls form an initial part of the samples of the remaining
  lines for the duration \<open>d\<close>, and all of them when the loop ends without an exception.
\<close>

theorem first_duration_is_kept:
  assumes "list_all (\<lambda>x. extract_duration None x = Inr None) pre"
    and "extract_duration None l = Inr (Some d)"
  shows "duration (snd (monitor cb (pre @ l # post) initial)) = Some d
         \<and> (\<forall>later. extract_duration (Some d) later = Inr (Some d))
         \<and> prefix (calls (snd (monitor cb (pre @ l # post) initial))) (samples_of d (l # post))
         \<and> (\<forall>f. cb = Some f \<and> fst (monitor cb (pre @ l # post) initial) = None \<longrightarrow>
               calls (snd (monitor cb (pre @ l # post) initial)) = samples_of d (l # post))"
proof -
  let ?st = "initial\<lparr>duration := Some d\<rparr>"
  have i: "duration initial = None"
    by (simp add: initial_def)
  have st: "duration ?st = Some d" "calls ?st = []"
    by (simp_all add: initial_def)
  have "monitor cb (pre @ l # post) initial = monitor cb (l # post) initial"
    by (simp add: monitor_append monitor_no_duration [OF assms(1) i])
  also have "\<dots> = monitor cb (l # post) ?st"
    by (simp add: step_first_duration [OF i assms(2)])
  finally have m: "monitor cb (pre @ l # post) initial = monitor cb (l # post) ?st" .
  have a: "duration (snd (monitor cb (l # post) ?st)) = Some d"
    using st(1) by (rule monitor_duration_known)
  have b: "prefix (calls (snd (monitor cb (l # post) ?st))) (samples_of d (l # post))"
  proof (cases cb)
    case None
    then show ?thesis
      using monitor_no_callback [of "l # post" ?st] st(2) by simp
  next
    case (Some f)
    then show ?thesis
      using monitor_samples_prefix [OF st(1), of "l # post" f] st(2) by auto
  qed
  have c: "calls (snd (monitor cb (l # post) ?st)) = samples_of d (l # post)"
    if "cb = Some f" and "fst (monitor cb (l # post) ?st) = None" for f
    using monitor_samples_all [OF st(1), of f "l # post"] that st(2) by simp
  have e: "extract_duration (Some d) later = Inr (Some d)" for later
    by simp
  from a b c e show ?thesis
    unfolding m by blast
qed

lemma two_durations:
  "extract_duration None ''ffmpeg version 6.0'' = Inr None"
  "extract_duration None ''Duration: 00:10:00.00'' = Inr (Some 600)"
  "samples_of 600 [''Duration: 00:10:00.00'', ''Duration: 00:20:00.00'',
      ''time=00:05:00.00 speed=2.0x''] = [\<lparr>percentage = 50, speed = 2, eta = ''2m 30s''\<rparr>]"
  "fst (monitor (Some quiet) [''ffmpeg version 6.0'', ''Duration: 00:10:00.00'',
      ''Duration: 00:20:00.00'', ''time=00:05:00.00 speed=2.0x''] initial) = None"
  by code_simp+

theorem first_duration_is_kept_witness:
  "extract_duration None ''ffmpeg version 6.0'' = Inr None
   \<and> extract_duration None ''Duration: 00:10:00.00'' = Inr (Some 600)
   \<and> duration (snd (monitor (Some quiet) [''ffmpeg version 6.0'', ''Duration: 00:10:00.00'',
        ''Duration: 00:20:00.00'', ''time=00:05:00.00 speed=2.0x''] initial)) = Some 600
   \<and> calls (snd (monitor (Some quiet) [''ffmpeg version 6.0'', ''Duration: 00:10:00.00'',
        ''Duration: 00:20:00.00'', ''time=00:05:00.00 speed=2.0x''] initial)) =
       [\<lparr>percentage = 50, speed = 2, eta = ''2m 30s''\<rparr>]"
proof -
  have "list_all (\<lambda>x. extract_duration None x = Inr None) [''ffmpeg version 6.0'']"
    using two_durations(1) by simp
  from first_duration_is_kept [OF this two_durations(2), of "Some quiet"
      "[''Duration: 00:20:00.00'', ''time=00:05:00.00 speed=2.0x'']"]
    two_durations
  show ?thesis
    by simp
qed

subsection \<open>Exceptions and the result of \<open>mergeSub\<close>\<close>

text \<open>
  An exception that ends the loop comes from the parsing of a line, and is then derived
  from \<open>Exception\<close>, or from the callback.
\<close>

lemma step_raises:
  "fst (step cb st line) = Some e \<Longrightarrow>
     is_Exception e \<or> (\<exists>f seen smp. cb = Some f \<and> f seen smp = Some e)"
  by (auto simp: step_def split: sum.splits option.splits
        dest!: extract_duration_error extract_progress_error)

lemma monitor_raises:
  "fst (monitor cb ls st) = Some e \<Longrightarrow>
     is_Exception e \<or> (\<exists>f seen smp. cb = Some f \<and> f seen smp = Some e)"
proof (induction ls arbitrary: st)
  case Nil
  then show ?case by simp
next
  case (Cons l ls)
  obtain r st' where r: "step cb st l = (r, st')"
    by (cases "step cb st l")
  show ?case
  proof (cases r)
    case None
    with r Cons.prems have "fst (monitor cb ls st') = Some e"
      by simp
    then show ?thesis
      by (rule Cons.IH)
  next
    case (Some e')
    with r Cons.prems have "fst (step cb st l) = Some e"
      by simp
    then show ?thesis
      by (rule step_raises)
  qed
qed

text \<open>
  With a standard output that takes every message, \<open>mergeSub_io\<close> is \<open>mergeSub\<close>.
\<close>

lemma handle_io_accepting: "handle_io accepting e cmds smps = handle e cmds smps"
  by (simp add: handle_io_def handle_def accepting_def)

lemma mergeSub_io_accepting:
  "mergeSub_io accepting env type inputvideo sub output progress_callback
     = mergeSub env type inputvideo sub output progress_callback"
  by (simp add: mergeSub_io_def mergeSub_def handle_io_accepting
        split: option.splits sum.splits prod.splits)
     (simp add: accepting_def)

text \<open>
  Claim C10 says that no exception ever reaches the caller.  Line 125 is
  \<open>except Exception\<close>, which does not catch \<open>KeyboardInterrupt\<close>, \<open>SystemExit\<close> or
  \<open>GeneratorExit\<close>: raised while the callback runs, \<open>KeyboardInterrupt\<close> leaves
  \<open>mergeSub\<close>, also when every message can be written.
\<close>

theorem interrupt_propagates:
  "returned (mergeSub_io accepting
       (stub_env [''Duration: 00:10:00.00'', ''time=00:05:00.00 speed=2.0x''] 0)
       3 ''video.mp4'' ''subtitles.srt'' ''output.mp4'' (Some interrupting))
     = Inl KeyboardInterrupt"
  by (simp add: mergeSub_io_accepting mergeSub_def stub_env_def plan_3_any step_def initial_def
        line_duration line_duration_time line_progress handle_def interrupting_def)

text \<open>
  The \<open>print\<close> of line 126 is in the handler itself.  On a standard output in ASCII a
  process that ends with code 0 makes line 119 raise, the handler is entered, its own
  \<open>print\<close> raises too, and \<open>UnicodeEncodeError\<close> leaves \<open>mergeSub\<close>.
\<close>

lemma failed_print_propagates:
  "returned (mergeSub_io ascii_only (stub_env [] 0)
       3 ''video.mp4'' ''subtitles.srt'' ''output.mp4'' None) = Inl UnicodeEncodeError"
  by (simp add: mergeSub_io_def stub_env_def plan_3_any initial_def handle_io_def)

text \<open>
  Claim C10, as the code has it.  Both input files exist and the message of line 126 can
  be written.  Then, for every mode, every stream, every exit code and every callback:
  when \<open>Popen\<close>, the callback and \<open>print\<close> raise only exceptions derived from
  \<open>Exception\<close>, \<open>mergeSub\<close> returns a boolean; and an exception raised by \<open>Popen\<close> or
  ending the loop over the stream is converted into \<open>False\<close> when it is derived from
  \<open>Exception\<close>, and leaves \<open>mergeSub\<close> unchanged when it is not.
\<close>

theorem only_Exception_is_caught:
  assumes "path_exists env inputvideo" and "path_exists env sub"
    and "\<And>e. stdout (Unexpected_error e) = None"
  shows "((\<forall>command e. popen env command = Inl e \<longrightarrow> is_Exception e)
          \<and> (\<forall>f seen smp e. progress_callback = Some f \<and> f seen smp = Some e \<longrightarrow> is_Exception e)
          \<and> (\<forall>m e. stdout m = Some e \<longrightarrow> is_Exception e)
          \<longrightarrow> (\<exists>b. returned (mergeSub_io stdout env type inputvideo sub output
                        progress_callback) = Inr b))
         \<and> (\<forall>output' command stderr returncode e.
               plan type inputvideo sub output = Some (output', command)
               \<and> (popen env command = Inl e
                  \<or> popen env command = Inr (stderr, returncode)
                    \<and> fst (monitor progress_callback stderr initial) = Some e)
               \<longrightarrow> returned (mergeSub_io stdout env type inputvideo sub output
                        progress_callback)
                     = (if is_Exception e then Inr False else Inl e))"
proof (intro conjI allI impI)
  assume h: "(\<forall>command e. popen env command = Inl e \<longrightarrow> is_Exception e)
          \<and> (\<forall>f seen smp e. progress_callback = Some f \<and> f seen smp = Some e \<longrightarrow> is_Exception e)
          \<and> (\<forall>m e. stdout m = Some e \<longrightarrow> is_Exception e)"
  have caught: "is_Exception e"
    if "monitor progress_callback stderr initial = (Some e, st)" for stderr e st
  proof -
    from that have "fst (monitor progress_callback stderr initial) = Some e"
      by simp
    from monitor_raises [OF this] h show ?thesis
      by blast
  qed
  have handled: "returned (handle_io stdout e cmds smps) = Inr False"
    if "is_Exception e" for e cmds smps
    using that assms(3) by (simp add: handle_io_def)
  from h have p: "is_Exception e" if "popen env command = Inl e" for command e
    using that by blast
  from h have w: "is_Exception e" if "stdout m = Some e" for m e
    using that by blast
  show "\<exists>b. returned (mergeSub_io stdout env type inputvideo sub output progress_callback) = Inr b"
    using assms(1,2) p w caught
    by (auto simp: mergeSub_io_def handled split: option.splits sum.splits prod.splits)
next
  fix output' command stderr returncode e
  assume h: "plan type inputvideo sub output = Some (output', command)
               \<and> (popen env command = Inl e
                  \<or> popen env command = Inr (stderr, returncode)
                    \<and> fst (monitor progress_callback stderr initial) = Some e)"
  have handled: "returned (handle_io stdout e cmds smps) = (if is_Exception e then Inr False else Inl e)"
    for cmds smps
    using assms(3) by (simp add: handle_io_def)
  from h consider "popen env command = Inl e"
    | "popen env command = Inr (stderr, returncode)"
      "fst (monitor progress_callback stderr initial) = Some e"
    by blast
  then show "returned (mergeSub_io stdout env type inputvideo sub output progress_callback)
               = (if is_Exception e then Inr False else Inl e)"
  proof cases
    case 1
    with h assms(1,2) show ?thesis
      by (simp add: mergeSub_io_def handled)
  next
    case 2
    obtain st where "monitor progress_callback stderr initial = (Some e, st)"
      using 2(2) by (cases "monitor progress_callback stderr initial") auto
    with h 2 assms(1,2) show ?thesis
      by (simp add: mergeSub_io_def handled)
  qed
qed

lemma failing_run:
  "fst (monitor (Some failing) [''Duration: 00:10:00.00'', ''time=00:05:00.00 speed=2.0x'']
      initial) = Some (UserError ''callback failed'')"
  by (simp add: step_def initial_def line_duration line_duration_time line_progress
        failing_def)

lemma interrupting_run:
  "fst (monitor (Some interrupting) [''Duration: 00:10:00.00'', ''time=00:05:00.00 speed=2.0x'']
      initial) = Some KeyboardInterrupt"
  by (simp add: step_def initial_def line_duration line_duration_time line_progress
        interrupting_def)

theorem only_Exception_is_caught_witness:
  "fst (monitor (Some failing) [''Duration: 00:10:00.00'', ''time=00:05:00.00 speed=2.0x'']
      initial) = Some (UserError ''callback failed'')
   \<and> is_Exception (UserError ''callback failed'')
   \<and> returned (mergeSub_io accepting
         (stub_env [''Duration: 00:10:00.00'', ''time=00:05:00.00 speed=2.0x''] 0)
         3 ''video.mp4'' ''subtitles.srt'' ''output.mp4'' (Some failing)) = Inr False
   \<and> fst (monitor (Some interrupting) [''Duration: 00:10:00.00'', ''time=00:05:00.00 speed=2.0x'']
      initial) = Some KeyboardInterrupt
   \<and> \<not> is_Exception KeyboardInterrupt
   \<and> returned (mergeSub_io accepting
         (stub_env [''Duration: 00:10:00.00'', ''time=00:05:00.00 speed=2.0x''] 0)
         3 ''video.mp4'' ''subtitles.srt'' ''output.mp4'' (Some interrupting))
       = Inl KeyboardInterrupt"
proof -
  let ?lines = "[''Duration: 00:10:00.00'', ''time=00:05:00.00 speed=2.0x'']"
  let ?env = "stub_env ?lines 0"
  let ?command = "[''ffmpeg'', ''-i'', ''video.mp4'', ''-vf'', ''subtitles='' @ ''subtitles.srt'',
        ''-c:v'', ''libx264'', ''-preset'', ''ultrafast'', ''-c:a'', ''copy'', ''output.mp4'']"
  have v: "path_exists ?env ''video.mp4''" and s: "path_exists ?env ''subtitles.srt''"
    and p: "popen ?env ?command = Inr (?lines, 0)"
    by (simp_all add: stub_env_def)
  have a: "accepting (Unexpected_error e) = None" for e
    by (simp add: accepting_def)
  note plan = plan_3_any [of "''video.mp4''" "''subtitles.srt''" "''output.mp4''"]
  have f: "plan 3 ''video.mp4'' ''subtitles.srt'' ''output.mp4'' = Some (''output.mp4'', ?command)
        \<and> (popen ?env ?command = Inl (UserError ''callback failed'')
           \<or> popen ?env ?command = Inr (?lines, 0)
             \<and> fst (monitor (Some failing) ?lines initial) = Some (UserError ''callback failed''))"
    using p failing_run plan by blast
  have i: "plan 3 ''video.mp4'' ''subtitles.srt'' ''output.mp4'' = Some (''output.mp4'', ?command)
        \<and> (popen ?env ?command = Inl KeyboardInterrupt
           \<or> popen ?env ?command = Inr (?lines, 0)
             \<and> fst (monitor (Some interrupting) ?lines initial) = Some KeyboardInterrupt)"
    using p interrupting_run plan by blast
  have "returned (mergeSub_io accepting ?env 3 ''video.mp4'' ''subtitles.srt'' ''output.mp4''
          (Some failing)) = Inr False"
    using only_Exception_is_caught [where stdout = accepting, OF v s a, THEN conjunct2, rule_format, OF f] by simp
  moreover
  have "returned (mergeSub_io accepting ?env 3 ''video.mp4'' ''subtitles.srt'' ''output.mp4''
          (Some interrupting)) = Inl KeyboardInterrupt"
    using only_Exception_is_caught [where stdout = accepting, OF v s a, THEN conjunct2, rule_format, OF i] by simp
  ultimately show ?thesis
    using failing_run interrupting_run by simp
qed

end
